theory Spec2Isabelle
  imports Main "HOL-Library.AList" "HOL-Library.Sublist"
begin

section \<open>Python values\<close>

text \<open>
  The values a Yaco structure holds are the ones the YAML codec produces (None, booleans,
  integers, strings, lists, dicts) and Yaco objects themselves.  A dict is an association
  list in insertion order; \<open>AList.update\<close> is \<open>dict.__setitem__\<close> (replace in
  place, else append) and \<open>map_of\<close> is \<open>dict.get\<close>.  \<open>PDict\<close> is a plain
  \<open>dict\<close>, \<open>Yaco\<close> an instance of the class \<open>Yaco(dict)\<close>, so
  \<open>isinstance(v, dict)\<close> holds for both and \<open>isinstance(v, Yaco)\<close> only for the
  second.  Floats and tuples are left out: the code never computes with a scalar, and YAML
  sequences load as lists.

  Objects are modelled by value.  Every operation that mutates its receiver returns the
  receiver's new contents, and an operation that mutates a nested object in place writes the
  new contents of that object back at the key it was read from.
\<close>

datatype pyval =
    PNone
  | PBool bool
  | PInt int
  | PStr string
  | PList "pyval list"
  | PDict "(string \<times> pyval) list"
  | Yaco "(string \<times> pyval) list"

type_synonym items = "(string \<times> pyval) list"

datatype error =
    KeyError
  | TypeError
  | AttributeError
  | IndexError
  | ValueError
  | IOError
  | SystemExit
  | YacoNotADirectory
  | Exception string

text \<open>Python truthiness (\<open>bool(v)\<close>); \<open>Yaco\<close> inherits it from \<open>dict\<close>.\<close>

fun truthy :: "pyval \<Rightarrow> bool" where
  "truthy PNone = False"
| "truthy (PBool b) = b"
| "truthy (PInt i) = (i \<noteq> 0)"
| "truthy (PStr s) = (s \<noteq> [])"
| "truthy (PList xs) = (xs \<noteq> [])"
| "truthy (PDict d) = (d \<noteq> [])"
| "truthy (Yaco d) = (d \<noteq> [])"


text \<open>\<open>isinstance(v, dict)\<close>, with the items of the mapping.\<close>

fun map_items :: "pyval \<Rightarrow> items option" where
  "map_items (PDict d) = Some d"
| "map_items (Yaco d) = Some d"
| "map_items v = None"

fun is_scalar :: "pyval \<Rightarrow> bool" where
  "is_scalar (PList xs) = False"
| "is_scalar (PDict d) = False"
| "is_scalar (Yaco d) = False"
| "is_scalar v = True"


section \<open>The deep merges of a Node: update and soft update\<close>

text \<open>
  \<open>Yaco_update self data\<close> is \<open>self.update(data)\<close> for a mapping \<open>data\<close> given by
  its items; the loop over \<open>data.items()\<close> is the recursion over the list, and
  \<open>Yaco(value)\<close> is \<open>Yaco_update [] value\<close> (the constructor updates a fresh
  instance).  \<open>if not data: return\<close> is the first equation.
\<close>

function Yaco_update :: "items \<Rightarrow> items \<Rightarrow> items"
  and Yaco_list_parser :: "pyval list \<Rightarrow> pyval list" where
  "Yaco_update self [] = self"
| "Yaco_update self ((key, PDict d) # rest) =
     Yaco_update
       (case map_of self key of
          Some (Yaco old) \<Rightarrow>
            (if old \<noteq> [] then AList.update key (Yaco (Yaco_update old d)) self
             else AList.update key (Yaco (Yaco_update [] d)) self)
        | _ \<Rightarrow> AList.update key (Yaco (Yaco_update [] d)) self) rest"
| "Yaco_update self ((key, Yaco d) # rest) =
     Yaco_update
       (case map_of self key of
          Some (Yaco old) \<Rightarrow>
            (if old \<noteq> [] then AList.update key (Yaco (Yaco_update old d)) self
             else AList.update key (Yaco (Yaco_update [] d)) self)
        | _ \<Rightarrow> AList.update key (Yaco (Yaco_update [] d)) self) rest"
| "Yaco_update self ((key, PList xs) # rest) =
     Yaco_update (AList.update key (PList (Yaco_list_parser xs)) self) rest"
| "Yaco_update self ((key, PNone) # rest) = Yaco_update (AList.update key PNone self) rest"
| "Yaco_update self ((key, PBool b) # rest) = Yaco_update (AList.update key (PBool b) self) rest"
| "Yaco_update self ((key, PInt i) # rest) = Yaco_update (AList.update key (PInt i) self) rest"
| "Yaco_update self ((key, PStr s) # rest) = Yaco_update (AList.update key (PStr s) self) rest"
| "Yaco_list_parser [] = []"
| "Yaco_list_parser (PDict d # rest) = Yaco (Yaco_update [] d) # Yaco_list_parser rest"
| "Yaco_list_parser (Yaco d # rest) = Yaco (Yaco_update [] d) # Yaco_list_parser rest"
| "Yaco_list_parser (PList ys # rest) = PList (Yaco_list_parser ys) # Yaco_list_parser rest"
| "Yaco_list_parser (PNone # rest) = PNone # Yaco_list_parser rest"
| "Yaco_list_parser (PBool b # rest) = PBool b # Yaco_list_parser rest"
| "Yaco_list_parser (PInt i # rest) = PInt i # Yaco_list_parser rest"
| "Yaco_list_parser (PStr s # rest) = PStr s # Yaco_list_parser rest"
  by pat_completeness auto
termination
  by (relation "measure (\<lambda>a. case a of Inl (self, data) \<Rightarrow> size (PDict data)
                                      | Inr xs \<Rightarrow> size (PList xs))") auto


section \<open>Reading and writing the entries of a Node\<close>

text \<open>
  \<open>Yaco.__getattr__\<close>: the stored value, or on \<open>KeyError\<close> a new empty Yaco that
  is stored under the key and returned.  The result is the receiver's new contents and the
  value returned.
\<close>

definition Yaco_getattr :: "items \<Rightarrow> string \<Rightarrow> items \<times> pyval" where
  "Yaco_getattr self key =
     (case map_of self key of
        Some v \<Rightarrow> (self, v)
      | None \<Rightarrow> (AList.update key (Yaco []) self, Yaco []))"

text \<open>\<open>key.split('.', 1)\<close> for a key that contains a dot.\<close>

definition split_dot :: "string \<Rightarrow> string \<times> string" where
  "split_dot key =
     (takeWhile (\<lambda>c. c \<noteq> CHR ''.'') key, tl (dropWhile (\<lambda>c. c \<noteq> CHR ''.'') key))"

lemma length_split_dot [termination_simp]:
  "CHR ''.'' \<in> set key \<Longrightarrow> split_dot key = (k1, k2) \<Longrightarrow> length k2 < length key"
proof -
  assume a: "CHR ''.'' \<in> set key" and b: "split_dot key = (k1, k2)"
  from a have "dropWhile (\<lambda>c. c \<noteq> CHR ''.'') key \<noteq> []" by (simp add: dropWhile_eq_Nil_conv)
  then have "length (tl (dropWhile (\<lambda>c. c \<noteq> CHR ''.'') key))
      < length (dropWhile (\<lambda>c. c \<noteq> CHR ''.'') key)" by (cases "dropWhile (\<lambda>c. c \<noteq> CHR ''.'') key") auto
  also have "\<dots> \<le> length key" by (rule length_dropWhile_le)
  finally show ?thesis using b by (auto simp: split_dot_def)
qed

text \<open>
  \<open>Yaco.__getitem__\<close>.  With a dot in the key it evaluates
  \<open>self.__getattr__(k1)[k2]\<close>: the subscript is this function again when the first
  segment holds a Yaco (whose new contents are written back under \<open>k1\<close>),
  \<open>dict.__getitem__\<close> when it holds a plain dict, and a \<open>TypeError\<close> when it holds
  a list, a string or another scalar, none of which takes a string subscript.
\<close>

function Yaco_getitem :: "items \<Rightarrow> string \<Rightarrow> error + items \<times> pyval" where
  "Yaco_getitem self key =
     (if CHR ''.'' \<notin> set key then Inr (Yaco_getattr self key)
      else
        (case split_dot key of (k1, k2) \<Rightarrow>
          (case Yaco_getattr self k1 of
             (self1, Yaco sub) \<Rightarrow>
               (case Yaco_getitem sub k2 of
                  Inl e \<Rightarrow> Inl e
                | Inr (sub', v) \<Rightarrow> Inr (AList.update k1 (Yaco sub') self1, v))
           | (self1, PDict d) \<Rightarrow>
               (case map_of d k2 of None \<Rightarrow> Inl KeyError | Some v \<Rightarrow> Inr (self1, v))
           | (self1, _) \<Rightarrow> Inl TypeError)))"
  by pat_completeness auto
termination
  by (relation "measure (\<lambda>(self, key). length key)") (auto dest: length_split_dot[OF _ sym])

declare Yaco_getitem.simps [simp del]

lemma Yaco_getitem_nodot [simp]:
  "CHR ''.'' \<notin> set key \<Longrightarrow> Yaco_getitem self key = Inr (Yaco_getattr self key)"
  by (subst Yaco_getitem.simps) simp

lemma Yaco_getitem_dot [simp]:
  "CHR ''.'' \<in> set key \<Longrightarrow>
   Yaco_getitem self key =
     (case split_dot key of (k1, k2) \<Rightarrow>
       (case Yaco_getattr self k1 of
          (self1, Yaco sub) \<Rightarrow>
            (case Yaco_getitem sub k2 of
               Inl e \<Rightarrow> Inl e
             | Inr (sub', v) \<Rightarrow> Inr (AList.update k1 (Yaco sub') self1, v))
        | (self1, PDict d) \<Rightarrow>
            (case map_of d k2 of None \<Rightarrow> Inl KeyError | Some v \<Rightarrow> Inr (self1, v))
        | (self1, _) \<Rightarrow> Inl TypeError))"
  by (subst Yaco_getitem.simps) simp

text \<open>\<open>Yaco.__setattr__\<close>: a dict is merged into a Yaco already stored under the key.\<close>

fun Yaco_setattr :: "items \<Rightarrow> string \<Rightarrow> pyval \<Rightarrow> items" where
  "Yaco_setattr self key (PDict d) =
     (case map_of self key of
        Some (Yaco old) \<Rightarrow> AList.update key (Yaco (Yaco_update old d)) self
      | _ \<Rightarrow> AList.update key (Yaco (Yaco_update [] d)) self)"
| "Yaco_setattr self key (Yaco d) =
     (case map_of self key of
        Some (Yaco old) \<Rightarrow> AList.update key (Yaco (Yaco_update old d)) self
      | _ \<Rightarrow> AList.update key (Yaco d) self)"
| "Yaco_setattr self key (PList xs) = AList.update key (PList (Yaco_list_parser xs)) self"
| "Yaco_setattr self key value = AList.update key value self"

text \<open>
  \<open>Yaco.__setitem__\<close>.  With a dot in the key it executes
  \<open>self.__getattr__(k1)[k2] = value\<close>; the assignment goes to the object stored
  under \<open>k1\<close>, whose new contents are written back there.
\<close>

function Yaco_setitem :: "items \<Rightarrow> string \<Rightarrow> pyval \<Rightarrow> error + items" where
  "Yaco_setitem self key value =
     (if CHR ''.'' \<notin> set key then Inr (Yaco_setattr self key value)
      else
        (case split_dot key of (k1, k2) \<Rightarrow>
          (case Yaco_getattr self k1 of
             (self1, Yaco sub) \<Rightarrow>
               (case Yaco_setitem sub k2 value of
                  Inl e \<Rightarrow> Inl e
                | Inr sub' \<Rightarrow> Inr (AList.update k1 (Yaco sub') self1))
           | (self1, PDict d) \<Rightarrow> Inr (AList.update k1 (PDict (AList.update k2 value d)) self1)
           | (self1, _) \<Rightarrow> Inl TypeError)))"
  by pat_completeness auto
termination
  by (relation "measure (\<lambda>(self, key, value). length key)")
    (auto dest: length_split_dot[OF _ sym])

declare Yaco_setitem.simps [simp del]

lemma Yaco_setitem_nodot [simp]:
  "CHR ''.'' \<notin> set key \<Longrightarrow> Yaco_setitem self key value = Inr (Yaco_setattr self key value)"
  by (subst Yaco_setitem.simps) simp

lemma Yaco_setitem_dot [simp]:
  "CHR ''.'' \<in> set key \<Longrightarrow>
   Yaco_setitem self key value =
     (case split_dot key of (k1, k2) \<Rightarrow>
       (case Yaco_getattr self k1 of
          (self1, Yaco sub) \<Rightarrow>
            (case Yaco_setitem sub k2 value of
               Inl e \<Rightarrow> Inl e
             | Inr sub' \<Rightarrow> Inr (AList.update k1 (Yaco sub') self1))
        | (self1, PDict d) \<Rightarrow> Inr (AList.update k1 (PDict (AList.update k2 value d)) self1)
        | (self1, _) \<Rightarrow> Inl TypeError))"
  by (subst Yaco_setitem.simps) simp

text \<open>\<open>key in self\<close> and \<open>has_key\<close>: \<open>dict.__contains__\<close>, which creates nothing.\<close>

definition Yaco_contains :: "items \<Rightarrow> string \<Rightarrow> bool" where
  "Yaco_contains self key = (map_of self key \<noteq> None)"

section \<open>Export of a Node\<close>

text \<open>
  \<open>k in _priv\<close> for a string \<open>k\<close>: membership in a list, the substring test on a
  string, key membership in a mapping, and a \<open>TypeError\<close> on any other value.
\<close>

fun in_priv :: "string \<Rightarrow> pyval \<Rightarrow> error + bool" where
  "in_priv k (PList xs) = Inr (PStr k \<in> set xs)"
| "in_priv k (PStr s) = Inr (sublist k s)"
| "in_priv k (PDict d) = Inr (map_of d k \<noteq> None)"
| "in_priv k (Yaco d) = Inr (map_of d k \<noteq> None)"
| "in_priv k v = Inl TypeError"

text \<open>\<open>isinstance(k, str) and k and k[0] == '_'\<close>.\<close>

definition is_private :: "string \<Rightarrow> bool" where
  "is_private k = (k \<noteq> [] \<and> hd k = CHR ''_'')"

text \<open>
  \<open>get_data\<close> reads every entry with \<open>self[k]\<close>, which is \<open>Yaco.__getitem__\<close>
  and so creates Nodes when a stored key contains a dot, and it calls \<open>get_data\<close> on
  the Nodes it finds, which may do the same inside them.  \<open>put_back\<close> stores the new
  contents of the object that \<open>self[k]\<close> returned at the place it was found.
\<close>

function put_back :: "items \<Rightarrow> string \<Rightarrow> pyval \<Rightarrow> items" where
  "put_back self key v =
     (if CHR ''.'' \<notin> set key then AList.update key v self
      else
        (case split_dot key of (k1, k2) \<Rightarrow>
          (case map_of self k1 of
             Some (Yaco sub) \<Rightarrow> AList.update k1 (Yaco (put_back sub k2 v)) self
           | Some (PDict d) \<Rightarrow> AList.update k1 (PDict (AList.update k2 v d)) self
           | _ \<Rightarrow> self)))"
  by pat_completeness auto
termination
  by (relation "measure (\<lambda>(self, key, v). length key)") (auto dest: length_split_dot[OF _ sym])

declare put_back.simps [simp del]

lemma put_back_nodot [simp]:
  "CHR ''.'' \<notin> set key \<Longrightarrow> put_back self key v = AList.update key v self"
  by (subst put_back.simps) simp

lemma put_back_dot [simp]:
  "CHR ''.'' \<in> set key \<Longrightarrow>
   put_back self key v =
     (case split_dot key of (k1, k2) \<Rightarrow>
       (case map_of self k1 of
          Some (Yaco sub) \<Rightarrow> AList.update k1 (Yaco (put_back sub k2 v)) self
        | Some (PDict d) \<Rightarrow> AList.update k1 (PDict (AList.update k2 v d)) self
        | _ \<Rightarrow> self))"
  by (subst put_back.simps) simp

text \<open>
  \<open>Yaco_get_data\<close> is \<open>get_data\<close>, \<open>get_data_loop\<close> its loop over
  \<open>list(self.keys())\<close> with the excluded keys \<open>_priv\<close>, the current contents of
  \<open>self\<close> and the \<open>data\<close> collected so far, \<open>check_data\<close> the inner function
  of that name and \<open>check_list\<close> its list comprehension.  Each returns the new contents
  of the object it was given and the exported value.  The first argument bounds the nesting
  that is followed; \<open>None\<close> means the bound was too small.
\<close>

function Yaco_get_data :: "nat \<Rightarrow> items \<Rightarrow> (error + items \<times> items) option"
  and get_data_loop ::
    "nat \<Rightarrow> pyval \<Rightarrow> string list \<Rightarrow> items \<Rightarrow> items \<Rightarrow> (error + items \<times> items) option"
  and check_data :: "nat \<Rightarrow> pyval \<Rightarrow> (error + pyval \<times> pyval) option"
  and check_list :: "nat \<Rightarrow> pyval list \<Rightarrow> (error + pyval list \<times> pyval list) option" where
  "Yaco_get_data 0 self = None"
| "Yaco_get_data (Suc m) self =
     get_data_loop m (case map_of self ''_private'' of Some p \<Rightarrow> p | None \<Rightarrow> PList [])
       (map fst self) self []"
| "get_data_loop n priv [] cur data = Some (Inr (cur, data))"
| "get_data_loop n priv (k # ks) cur data =
     (case in_priv k priv of
        Inl e \<Rightarrow> Some (Inl e)
      | Inr True \<Rightarrow> get_data_loop n priv ks cur data
      | Inr False \<Rightarrow>
          (if is_private k then get_data_loop n priv ks cur data
           else
             (case Yaco_getitem cur k of
                Inl e \<Rightarrow> Some (Inl e)
              | Inr (cur1, v) \<Rightarrow>
                  (case check_data n v of
                     None \<Rightarrow> None
                   | Some (Inl e) \<Rightarrow> Some (Inl e)
                   | Some (Inr (v', d)) \<Rightarrow>
                       get_data_loop n priv ks (put_back cur1 k v') (AList.update k d data)))))"
| "check_data 0 v = None"
| "check_data (Suc m) v =
     (case v of
        Yaco sub \<Rightarrow>
          (case Yaco_get_data m sub of
             None \<Rightarrow> None
           | Some (Inl e) \<Rightarrow> Some (Inl e)
           | Some (Inr (sub', d)) \<Rightarrow> Some (Inr (Yaco sub', PDict d)))
      | PList xs \<Rightarrow>
          (case check_list m xs of
             None \<Rightarrow> None
           | Some (Inl e) \<Rightarrow> Some (Inl e)
           | Some (Inr (xs', ds)) \<Rightarrow> Some (Inr (PList xs', PList ds)))
      | _ \<Rightarrow> Some (Inr (v, v)))"
| "check_list n [] = Some (Inr ([], []))"
| "check_list n (x # xs) =
     (case check_data n x of
        None \<Rightarrow> None
      | Some (Inl e) \<Rightarrow> Some (Inl e)
      | Some (Inr (x', d)) \<Rightarrow>
          (case check_list n xs of
             None \<Rightarrow> None
           | Some (Inl e) \<Rightarrow> Some (Inl e)
           | Some (Inr (xs', ds)) \<Rightarrow> Some (Inr (x' # xs', d # ds))))"
  by pat_completeness auto
termination
  by (relation "inv_image (less_than <*lex*> less_than <*lex*> less_than)
      (\<lambda>a. case a of
         Inl (Inl (n, self)) \<Rightarrow> (n, 0, 0)
       | Inl (Inr (n, priv, ks, cur, data)) \<Rightarrow> (n, 1, length ks)
       | Inr (Inl (n, v)) \<Rightarrow> (n, 0, 0)
       | Inr (Inr (n, xs)) \<Rightarrow> (n, 1, length xs))") auto

section \<open>Loading a Node\<close>

text \<open>
  The YAML codec, the file system and the package resources are outside the program.  They
  enter as functions of an environment: \<open>yaml_load\<close> is \<open>yaml.load\<close> on a text,
  \<open>read_file\<close> opens and reads a file, \<open>can_write\<close> tells whether a file opens for
  writing, \<open>resource_string\<close> is \<open>pkg_resources.resource_string\<close>, and
  \<open>expanduser\<close>, \<open>isdir\<close>, \<open>isfile\<close> are the functions of \<open>os.path\<close>.
  \<open>YacoDir\<close> is the contents of a \<open>YacoDir(dirname, pattern)\<close> after its
  \<open>load()\<close>, and \<open>YacoPkgDir\<close> the contents of a
  \<open>YacoPkgDir(pkg_name, path, pattern)\<close>; both walk directories and are taken as
  given.  Each returns the exception it raises as \<open>Inl\<close>.
\<close>

record env =
  expanduser :: "string \<Rightarrow> string"
  isdir :: "string \<Rightarrow> bool"
  isfile :: "string \<Rightarrow> bool"
  yaml_load :: "string \<Rightarrow> error + pyval"
  read_file :: "string \<Rightarrow> error + string"
  can_write :: "string \<Rightarrow> bool"
  resource_string :: "string \<Rightarrow> string \<Rightarrow> error + string"
  YacoDir :: "string \<Rightarrow> string \<Rightarrow> error + items"
  YacoPkgDir :: "string \<Rightarrow> string \<Rightarrow> string \<Rightarrow> error + items"

text \<open>
  \<open>self.update(data)\<close> for any value: nothing happens for a falsy one, and a truthy one
  that is no mapping has no \<open>items\<close>.
\<close>

definition Yaco_update_data :: "items \<Rightarrow> pyval \<Rightarrow> error + items" where
  "Yaco_update_data self data =
     (if \<not> truthy data then Inr self
      else (case map_items data of
              Some d \<Rightarrow> Inr (Yaco_update self d)
            | None \<Rightarrow> Inl AttributeError))"

text \<open>The constructor \<open>Yaco(data)\<close>.\<close>

fun Yaco_init :: "env \<Rightarrow> pyval \<Rightarrow> error + items" where
  "Yaco_init E (PDict d) = Inr (Yaco_update [] d)"
| "Yaco_init E (Yaco d) = Inr (Yaco_update [] d)"
| "Yaco_init E (PStr s) =
     (case yaml_load E s of Inl e \<Rightarrow> Inl e | Inr data \<Rightarrow> Yaco_update_data [] data)"
| "Yaco_init E v = Inl (Exception ''cannot parse'')"

text \<open>\<open>Yaco.load(from_file)\<close> with no leaf.\<close>

definition Yaco_load :: "env \<Rightarrow> items \<Rightarrow> string \<Rightarrow> error + items" where
  "Yaco_load E self from_file =
     (case read_file E from_file of
        Inl e \<Rightarrow> Inl e
      | Inr text \<Rightarrow>
          (case yaml_load E text of
             Inl e \<Rightarrow> Inl e
           | Inr data \<Rightarrow> Yaco_update_data self data))"

text \<open>\<open>location.rsplit('/', 1)\<close> for a location that contains a slash.\<close>

definition rsplit_slash :: "string \<Rightarrow> string \<times> string" where
  "rsplit_slash s =
     (rev (tl (dropWhile (\<lambda>c. c \<noteq> CHR ''/'') (rev s))),
      rev (takeWhile (\<lambda>c. c \<noteq> CHR ''/'') (rev s)))"

text \<open>
  \<open>YacoPkg(pkg_name, location)\<close> with a location: a location with a star and a slash
  is a directory of resources; otherwise the resource is read, and an \<open>IOError\<close> there
  logs a critical message and calls \<open>sys.exit(-1)\<close>.
\<close>

definition YacoPkg_init :: "env \<Rightarrow> string \<Rightarrow> string \<Rightarrow> error + items" where
  "YacoPkg_init E pkg_name location =
     (if CHR ''*'' \<in> set location \<and> CHR ''/'' \<in> set location then
        (case rsplit_slash location of (path, pattern) \<Rightarrow>
          (case YacoPkgDir E pkg_name path pattern of
             Inl e \<Rightarrow> Inl e
           | Inr config \<Rightarrow> Inr (Yaco_update [] config)))
      else
        (case resource_string E pkg_name location of
           Inl e \<Rightarrow> (if e = IOError then Inl SystemExit else Inl e)
         | Inr config \<Rightarrow>
             (case yaml_load E config of
                Inl e \<Rightarrow> Inl e
              | Inr data \<Rightarrow> Yaco_update_data [] data)))"

section \<open>PolyYaco\<close>

text \<open>
  The instance attributes of a \<open>PolyYaco\<close>.  A layer is the contents of a Yaco object
  together with its class, which decides what \<open>save\<close> does; \<open>PolyYaco_base\<close>
  and \<open>PolyYaco_merged\<close> are Python values, \<open>PNone\<close> for \<open>None\<close>;
  \<open>PolyYaco_dict\<close> holds any other attribute whose name begins with
  \<open>_PolyYaco\<close>.
\<close>

datatype yaco_class = ClassYaco | ClassYacoDir | ClassYacoPkg

record poly =
  PolyYaco_base :: pyval
  PolyYaco_rawfiles :: "string list"
  PolyYaco_ydpattern :: string
  PolyYaco_filenames :: "string list"
  PolyYaco_yacs :: "(yaco_class \<times> items) list"
  PolyYaco_merged :: pyval
  PolyYaco_dirty :: bool
  PolyYaco_dict :: items

text \<open>
  The loop of \<open>load\<close> over the raw file names, with the file names and layers
  collected so far.  \<open>base.split('/', 1)\<close> of a package locator without a slash does
  not unpack into two names and raises \<open>ValueError\<close>.
\<close>

fun load_files ::
  "env \<Rightarrow> string \<Rightarrow> string list \<Rightarrow> string list \<times> (yaco_class \<times> items) list \<Rightarrow>
   error + string list \<times> (yaco_class \<times> items) list" where
  "load_files E pat [] acc = Inr acc"
| "load_files E pat (raw # rest) (names, layers) =
     (let filename = expanduser E raw in
      if take 6 filename = ''pkg://'' then
        (let base = drop 6 filename in
         if CHR ''/'' \<notin> set base then Inl ValueError
         else
           (case YacoPkg_init E (takeWhile (\<lambda>c. c \<noteq> CHR ''/'') base)
                   (tl (dropWhile (\<lambda>c. c \<noteq> CHR ''/'') base)) of
              Inl e \<Rightarrow> Inl e
            | Inr content \<Rightarrow>
                load_files E pat rest (names @ [filename], layers @ [(ClassYacoPkg, content)])))
      else if isdir E filename then
        (case YacoDir E filename pat of
           Inl e \<Rightarrow> Inl e
         | Inr content \<Rightarrow>
             load_files E pat rest (names @ [filename], layers @ [(ClassYacoDir, content)]))
      else if isfile E filename then
        (case Yaco_load E [] filename of
           Inl e \<Rightarrow> Inl e
         | Inr content \<Rightarrow>
             load_files E pat rest (names @ [filename], layers @ [(ClassYaco, content)]))
      else load_files E pat rest (names, layers))"

text \<open>
  \<open>PolyYaco.load\<close>.  An exception leaves the method; the attributes of the instance at
  that moment are not part of the result.
\<close>

definition PolyYaco_load :: "env \<Rightarrow> poly \<Rightarrow> error + poly" where
  "PolyYaco_load E s =
     (case (if PolyYaco_base s = PNone then Inr ([], [])
            else
              (case Yaco_init E (PolyYaco_base s) of
                 Inl e \<Rightarrow> Inl e
               | Inr content \<Rightarrow> Inr ([''_base''], [(ClassYaco, content)]))) of
        Inl e \<Rightarrow> Inl e
      | Inr acc \<Rightarrow>
          (case load_files E (PolyYaco_ydpattern s) (PolyYaco_rawfiles s) acc of
             Inl e \<Rightarrow> Inl e
           | Inr (names, layers) \<Rightarrow>
               Inr (s\<lparr>PolyYaco_dirty := True, PolyYaco_filenames := names,
                       PolyYaco_yacs := layers, PolyYaco_merged := PNone\<rparr>)))"

text \<open>The constructor; \<open>files=None\<close> stands for the two default locations.\<close>

definition PolyYaco_init ::
  "env \<Rightarrow> string \<Rightarrow> string list option \<Rightarrow> pyval \<Rightarrow> string \<Rightarrow> error + poly" where
  "PolyYaco_init E name files base ydpattern =
     PolyYaco_load E
       \<lparr>PolyYaco_base = base,
        PolyYaco_rawfiles =
          (case files of
             None \<Rightarrow> [''/etc/'' @ name @ ''.config'', ''~/.config/'' @ name @ ''/'']
           | Some fs \<Rightarrow> fs),
        PolyYaco_ydpattern = ydpattern,
        PolyYaco_filenames = [],
        PolyYaco_yacs = [],
        PolyYaco_merged = PNone,
        PolyYaco_dirty = False,
        PolyYaco_dict = []\<rparr>"

text \<open>\<open>_getTop\<close>: the last file name and the last layer, or \<open>(None, None)\<close>.\<close>

definition PolyYaco_getTop :: "poly \<Rightarrow> error + (string \<times> yaco_class \<times> items) option" where
  "PolyYaco_getTop s =
     (if PolyYaco_yacs s \<noteq> [] then
        (if PolyYaco_filenames s = [] then Inl IndexError
         else Inr (Some (last (PolyYaco_filenames s), last (PolyYaco_yacs s))))
      else Inr None)"

text \<open>
  \<open>merge\<close>: the cached Yaco when the flag is clear, else a new Yaco updated with every
  layer in turn, which is cached.  The result is the new state and the value returned.
  \<open>update\<close> parses the lists of its argument in place; the layers were built by
  \<open>update\<close>, which stored their lists parsed, and the model does not write them
  back.
\<close>

definition merge_layers :: "(yaco_class \<times> items) list \<Rightarrow> items" where
  "merge_layers layers = fold (\<lambda>yy y. Yaco_update y (snd yy)) layers []"

definition PolyYaco_merge :: "poly \<Rightarrow> poly \<times> pyval" where
  "PolyYaco_merge s =
     (if \<not> PolyYaco_dirty s then (s, PolyYaco_merged s)
      else
        (let y = merge_layers (PolyYaco_yacs s) in
         (s\<lparr>PolyYaco_merged := Yaco y, PolyYaco_dirty := False\<rparr>, Yaco y)))"

text \<open>
  The branch of \<open>__setattr__\<close> and \<open>__getattr__\<close> for a name of the instance,
  \<open>key[:9] == '_PolyYaco'\<close>: the instance dictionary is written and read.  The attributes the class
  itself uses are the fields of the record; a value that does not have the type of its
  field is kept in \<open>PolyYaco_dict\<close>, and the flag keeps the truth value of what is
  stored in it.
\<close>

definition is_instance_name :: "string \<Rightarrow> bool" where
  "is_instance_name key = (take 9 key = ''_PolyYaco'')"

fun strs_of :: "pyval list \<Rightarrow> string list option" where
  "strs_of [] = Some []"
| "strs_of (PStr s # xs) = (case strs_of xs of None \<Rightarrow> None | Some ss \<Rightarrow> Some (s # ss))"
| "strs_of (v # xs) = None"

fun layers_of :: "pyval list \<Rightarrow> (yaco_class \<times> items) list option" where
  "layers_of [] = Some []"
| "layers_of (Yaco d # xs) =
     (case layers_of xs of None \<Rightarrow> None | Some ls \<Rightarrow> Some ((ClassYaco, d) # ls))"
| "layers_of (v # xs) = None"

definition instance_write :: "poly \<Rightarrow> string \<Rightarrow> pyval \<Rightarrow> poly" where
  "instance_write s key value =
     (if key = ''_PolyYaco_dirty'' then s\<lparr>PolyYaco_dirty := truthy value\<rparr>
      else if key = ''_PolyYaco_merged'' then s\<lparr>PolyYaco_merged := value\<rparr>
      else if key = ''_PolyYaco_base'' then s\<lparr>PolyYaco_base := value\<rparr>
      else
        (case (key, value) of
           (''_PolyYaco_ydpattern'', PStr p) \<Rightarrow> s\<lparr>PolyYaco_ydpattern := p\<rparr>
         | (''_PolyYaco_rawfiles'', PList xs) \<Rightarrow>
             (case strs_of xs of
                Some ss \<Rightarrow> s\<lparr>PolyYaco_rawfiles := ss\<rparr>
              | None \<Rightarrow> s\<lparr>PolyYaco_dict := AList.update key value (PolyYaco_dict s)\<rparr>)
         | (''_PolyYaco_filenames'', PList xs) \<Rightarrow>
             (case strs_of xs of
                Some ss \<Rightarrow> s\<lparr>PolyYaco_filenames := ss\<rparr>
              | None \<Rightarrow> s\<lparr>PolyYaco_dict := AList.update key value (PolyYaco_dict s)\<rparr>)
         | (''_PolyYaco_yacs'', PList xs) \<Rightarrow>
             (case layers_of xs of
                Some ls \<Rightarrow> s\<lparr>PolyYaco_yacs := ls\<rparr>
              | None \<Rightarrow> s\<lparr>PolyYaco_dict := AList.update key value (PolyYaco_dict s)\<rparr>)
         | _ \<Rightarrow> s\<lparr>PolyYaco_dict := AList.update key value (PolyYaco_dict s)\<rparr>))"

definition instance_read :: "poly \<Rightarrow> string \<Rightarrow> pyval option" where
  "instance_read s key =
     (if key = ''_PolyYaco_dirty'' then Some (PBool (PolyYaco_dirty s))
      else if key = ''_PolyYaco_merged'' then Some (PolyYaco_merged s)
      else if key = ''_PolyYaco_base'' then Some (PolyYaco_base s)
      else if key = ''_PolyYaco_ydpattern'' then Some (PStr (PolyYaco_ydpattern s))
      else if key = ''_PolyYaco_rawfiles'' then Some (PList (map PStr (PolyYaco_rawfiles s)))
      else if key = ''_PolyYaco_filenames'' then Some (PList (map PStr (PolyYaco_filenames s)))
      else if key = ''_PolyYaco_yacs'' then Some (PList (map (\<lambda>l. Yaco (snd l)) (PolyYaco_yacs s)))
      else map_of (PolyYaco_dict s) key)"

text \<open>
  \<open>PolyYaco.__setattr__\<close>, which is \<open>__setitem__\<close> as well.  A name of the
  instance is stored in the instance; any other key sets the flag and is assigned in the
  top layer, whose new contents replace the old ones in the list of layers.  Without a
  layer the assignment is made on \<open>None\<close> and raises \<open>AttributeError\<close>.
\<close>

definition PolyYaco_setattr :: "poly \<Rightarrow> string \<Rightarrow> pyval \<Rightarrow> error + poly" where
  "PolyYaco_setattr s key value =
     (if is_instance_name key then Inr (instance_write s key value)
      else
        (case PolyYaco_getTop (s\<lparr>PolyYaco_dirty := True\<rparr>) of
           Inl e \<Rightarrow> Inl e
         | Inr None \<Rightarrow> Inl AttributeError
         | Inr (Some (cfn, c, cyc)) \<Rightarrow>
             Inr (s\<lparr>PolyYaco_dirty := True,
                     PolyYaco_yacs :=
                       butlast (PolyYaco_yacs s) @ [(c, Yaco_setattr cyc key value)]\<rparr>)))"

text \<open>
  \<open>PolyYaco.__getattr__\<close>, which is \<open>__getitem__\<close> as well: for a key of the
  configuration it calls \<open>__getattr__\<close> of the Yaco that \<open>merge\<close> returns, which
  stores an empty Yaco there when the key is absent.  Only a Yaco has that method.
\<close>

definition PolyYaco_getattr :: "poly \<Rightarrow> string \<Rightarrow> error + poly \<times> pyval" where
  "PolyYaco_getattr s key =
     (if is_instance_name key then
        (case instance_read s key of None \<Rightarrow> Inl AttributeError | Some v \<Rightarrow> Inr (s, v))
      else
        (case PolyYaco_merge s of
           (s1, Yaco y) \<Rightarrow>
             (case Yaco_getattr y key of
                (y', rv) \<Rightarrow> Inr (s1\<lparr>PolyYaco_merged := Yaco y'\<rparr>, rv))
         | (s1, _) \<Rightarrow> Inl AttributeError))"

text \<open>\<open>PolyYaco.get\<close>; \<open>rv == {}\<close> holds of the empty Yaco and the empty dict.\<close>

definition PolyYaco_get :: "poly \<Rightarrow> string \<Rightarrow> pyval \<Rightarrow> error + poly \<times> pyval" where
  "PolyYaco_get s key dflt =
     (case PolyYaco_getattr s key of
        Inl e \<Rightarrow> (if e = KeyError then Inr (s, dflt) else Inl e)
      | Inr (s1, rv) \<Rightarrow>
          (if rv = Yaco [] \<or> rv = PDict [] then Inr (s1, dflt) else Inr (s1, rv)))"

text \<open>\<open>PolyYaco.__contains__\<close>: \<open>self.merge().__contains__(key)\<close>.\<close>

definition PolyYaco_contains :: "poly \<Rightarrow> string \<Rightarrow> error + poly \<times> bool" where
  "PolyYaco_contains s key =
     (case PolyYaco_merge s of
        (s1, Yaco y) \<Rightarrow> Inr (s1, Yaco_contains y key)
      | (s1, PDict d) \<Rightarrow> Inr (s1, map_of d key \<noteq> None)
      | (s1, PList xs) \<Rightarrow> Inr (s1, PStr key \<in> set xs)
      | (s1, PStr str) \<Rightarrow> Inr (s1, sublist key str)
      | (s1, _) \<Rightarrow> Inl AttributeError)"

section \<open>Saving\<close>

text \<open>
  The files written: a path holds the exported mapping that was dumped into it, or is
  empty because it was opened for writing and nothing was written.
\<close>

datatype written = Truncated | Dump items

type_synonym files = "string \<Rightarrow> written option"

text \<open>
  \<open>Yaco.save(to_file)\<close>: \<open>get_data\<close> is called first (its result is not used),
  the file is opened for writing, which empties it, and the dump of a second
  \<open>get_data\<close> is written.  The result gives the files after the call in every case,
  and the contents of the Yaco on normal return.
\<close>

definition Yaco_save ::
  "env \<Rightarrow> nat \<Rightarrow> items \<Rightarrow> string \<Rightarrow> files \<Rightarrow> ((error + items) \<times> files) option" where
  "Yaco_save E n self to_file fs =
     (case Yaco_get_data n self of
        None \<Rightarrow> None
      | Some (Inl e) \<Rightarrow> Some (Inl e, fs)
      | Some (Inr (self1, data)) \<Rightarrow>
          (if \<not> can_write E (expanduser E to_file) then Some (Inl IOError, fs)
           else
             (case Yaco_get_data n self1 of
                None \<Rightarrow> None
              | Some (Inl e) \<Rightarrow> Some (Inl e, fs(expanduser E to_file \<mapsto> Truncated))
              | Some (Inr (self2, dump)) \<Rightarrow>
                  Some (Inr self2, fs(expanduser E to_file \<mapsto> Dump dump)))))"

text \<open>
  \<open>PolyYaco.save\<close>.  \<open>YacoDir.save\<close> takes no file name, so the call with one
  raises \<open>TypeError\<close>; the other classes save with \<open>Yaco.save\<close>.
\<close>

definition PolyYaco_save ::
  "env \<Rightarrow> nat \<Rightarrow> poly \<Rightarrow> files \<Rightarrow> ((error + poly) \<times> files) option" where
  "PolyYaco_save E n s fs =
     (case PolyYaco_getTop s of
        Inl e \<Rightarrow> Some (Inl e, fs)
      | Inr None \<Rightarrow> Some (Inl AttributeError, fs)
      | Inr (Some (cfn, c, cyc)) \<Rightarrow>
          (if cfn = ''_base'' then Some (Inl (Exception ''Cannot save to base configuration''), fs)
           else if c = ClassYacoDir then Some (Inl TypeError, fs)
           else
             (case Yaco_save E n cyc cfn fs of
                None \<Rightarrow> None
              | Some (Inl e, fs') \<Rightarrow> Some (Inl e, fs')
              | Some (Inr cyc', fs') \<Rightarrow>
                  Some (Inr (s\<lparr>PolyYaco_yacs := butlast (PolyYaco_yacs s) @ [(c, cyc')]\<rparr>),
                        fs'))))"

section \<open>Notions used to state the properties\<close>

text \<open>
  The items of the Yaco object stored under a key, when there is one (\<open>[]\<close> otherwise):
  the receiver of the recursive \<open>old_value.update(value)\<close>.
\<close>

definition old_items :: "pyval option \<Rightarrow> items" where
  "old_items old = (case old of Some (Yaco ol) \<Rightarrow> ol | _ \<Rightarrow> [])"

text \<open>The value one iteration of the loop of \<open>update\<close> stores under its key.\<close>

definition update_value :: "pyval option \<Rightarrow> pyval \<Rightarrow> pyval" where
  "update_value old v =
     (case v of
        PDict d \<Rightarrow> Yaco (Yaco_update (old_items old) d)
      | Yaco d \<Rightarrow> Yaco (Yaco_update (old_items old) d)
      | PList xs \<Rightarrow> PList (Yaco_list_parser xs)
      | _ \<Rightarrow> v)"

text \<open>
  The data-model invariant of a Node: every mapping stored in it, at any depth and also
  inside lists, is itself a Yaco object, never a plain dict.
\<close>

fun nodes_only :: "pyval \<Rightarrow> bool" where
  "nodes_only (PDict d) = False"
| "nodes_only (Yaco d) = (\<forall>kv\<in>set d. nodes_only (snd kv))"
| "nodes_only (PList xs) = (\<forall>x\<in>set xs. nodes_only x)"
| "nodes_only v = True"



text \<open>
  What an exported structure is: scalars, lists and plain dicts only, and no key of any
  dict in it begins with an underscore.
\<close>

fun exported :: "pyval \<Rightarrow> bool" where
  "exported (Yaco d) = False"
| "exported (PDict d) = (\<forall>kv\<in>set d. \<not> is_private (fst kv) \<and> exported (snd kv))"
| "exported (PList xs) = (\<forall>x\<in>set xs. exported x)"
| "exported v = True"

text \<open>
  The export as the specification words it: a Node becomes a plain mapping without its
  private keys and without the keys its own exclusion list names, a list is exported
  element by element, anything else is left as it is.  \<open>regular\<close> describes the Nodes
  of the data model: unique keys without dots, Nodes as the only mappings, and an
  exclusion list that is a list when it is there.  \<open>fuel_for\<close> is a nesting bound that
  suffices for such a Node.
\<close>

definition excluded :: "items \<Rightarrow> string \<Rightarrow> bool" where
  "excluded d k =
     (is_private k \<or>
      (case map_of d ''_private'' of Some (PList ex) \<Rightarrow> PStr k \<in> set ex | _ \<Rightarrow> False))"

fun export_spec :: "pyval \<Rightarrow> pyval" where
  "export_spec (Yaco d) =
     PDict (map (\<lambda>kv. (fst kv, export_spec (snd kv))) (filter (\<lambda>kv. \<not> excluded d (fst kv)) d))"
| "export_spec (PList xs) = PList (map export_spec xs)"
| "export_spec v = v"

fun regular :: "pyval \<Rightarrow> bool" where
  "regular (Yaco d) =
     (distinct (map fst d) \<and>
      (\<forall>kv\<in>set d. CHR ''.'' \<notin> set (fst kv) \<and> regular (snd kv)) \<and>
      (case map_of d ''_private'' of None \<Rightarrow> True | Some (PList ex) \<Rightarrow> True | Some _ \<Rightarrow> False))"
| "regular (PList xs) = (\<forall>x\<in>set xs. regular x)"
| "regular (PDict d) = False"
| "regular v = True"

fun fuel_for :: "pyval \<Rightarrow> nat" where
  "fuel_for (Yaco d) = Suc (Suc (sum_list (map (\<lambda>kv. fuel_for (snd kv)) d)))"
| "fuel_for (PDict d) = Suc (Suc (sum_list (map (\<lambda>kv. fuel_for (snd kv)) d)))"
| "fuel_for (PList xs) = Suc (Suc (sum_list (map fuel_for xs)))"
| "fuel_for v = Suc 0"

definition exp_entry :: "string \<times> pyval \<Rightarrow> string \<times> pyval" where
  "exp_entry kv = (fst kv, export_spec (snd kv))"


text \<open>
  Sequences of reads through a \<open>PolyYaco\<close>, to count how often the merge is computed.
  \<open>merge\<close> computes exactly when it is called with the flag set; every read calls it
  except the reads of a name of the instance.  \<open>run_reads\<close> performs the reads in turn
  and returns the last state with the number of reads in which the merge was computed.
\<close>

datatype read = RMerge | RGetattr string | RGet string pyval | RContains string

fun calls_merge :: "read \<Rightarrow> bool" where
  "calls_merge RMerge = True"
| "calls_merge (RGetattr k) = (\<not> is_instance_name k)"
| "calls_merge (RGet k d) = (\<not> is_instance_name k)"
| "calls_merge (RContains k) = True"

fun do_read :: "poly \<Rightarrow> read \<Rightarrow> error + poly" where
  "do_read s RMerge = Inr (fst (PolyYaco_merge s))"
| "do_read s (RGetattr k) =
     (case PolyYaco_getattr s k of Inl e \<Rightarrow> Inl e | Inr (s1, v) \<Rightarrow> Inr s1)"
| "do_read s (RGet k d) =
     (case PolyYaco_get s k d of Inl e \<Rightarrow> Inl e | Inr (s1, v) \<Rightarrow> Inr s1)"
| "do_read s (RContains k) =
     (case PolyYaco_contains s k of Inl e \<Rightarrow> Inl e | Inr (s1, b) \<Rightarrow> Inr s1)"

fun run_reads :: "poly \<Rightarrow> read list \<Rightarrow> error + poly \<times> nat" where
  "run_reads s [] = Inr (s, 0)"
| "run_reads s (r # rs) =
     (case do_read s r of
        Inl e \<Rightarrow> Inl e
      | Inr s1 \<Rightarrow>
          (case run_reads s1 rs of
             Inl e \<Rightarrow> Inl e
           | Inr (s2, c) \<Rightarrow>
               Inr (s2, c + (if calls_merge r \<and> PolyYaco_dirty s then 1 else 0))))"
section \<open>Properties of update\<close>

lemma Yaco_update_step:
  "Yaco_update self ((k, v) # rest) =
     Yaco_update (AList.update k (update_value (map_of self k) v) self) rest"
  by (cases v) (auto simp: update_value_def old_items_def split: option.splits pyval.splits)

lemma map_of_Yaco_update:
  "distinct (map fst other) \<Longrightarrow>
   map_of (Yaco_update self other) k =
     (case map_of other k of None \<Rightarrow> map_of self k
      | Some v \<Rightarrow> Some (update_value (map_of self k) v))"
proof (induction other arbitrary: self)
  case Nil
  then show ?case by simp
next
  case (Cons kv rest)
  obtain k' v' where kv: "kv = (k', v')" by (cases kv)
  from Cons.prems kv have d: "distinct (map fst rest)" and nin: "k' \<notin> fst ` set rest" by auto
  from nin have none: "map_of rest k' = None" by (simp add: map_of_eq_None_iff)
  show ?case
    unfolding kv Yaco_update_step
    using Cons.IH[OF d] none
    by (auto simp: update_conv' split: option.splits)
qed


lemma distinct_Yaco_update:
  "distinct (map fst self) \<Longrightarrow> distinct (map fst (Yaco_update self other))"
proof (induction other arbitrary: self)
  case Nil
  then show ?case by simp
next
  case (Cons kv rest)
  obtain k' v' where kv: "kv = (k', v')" by (cases kv)
  show ?case unfolding kv Yaco_update_step using Cons by (simp add: distinct_update)
qed


lemma nodes_only_AList_update:
  "\<forall>kv\<in>set al. nodes_only (snd kv) \<Longrightarrow> nodes_only v \<Longrightarrow>
   \<forall>kv\<in>set (AList.update k v al). nodes_only (snd kv)"
  by (induction al) auto

lemma nodes_only_map_of:
  "\<forall>kv\<in>set al. nodes_only (snd kv) \<Longrightarrow> map_of al k = Some v \<Longrightarrow> nodes_only v"
  using map_of_SomeD by fastforce






section \<open>Properties of soft update\<close>




















section \<open>Properties of the accessors\<close>

lemma AList_update_absent: "map_of al k = None \<Longrightarrow> AList.update k v al = al @ [(k, v)]"
  by (induction al) (auto split: if_splits)






section \<open>Properties of the export\<close>

lemma export_spec_Yaco:
  "export_spec (Yaco d) = PDict (map exp_entry (filter (\<lambda>kv. \<not> excluded d (fst kv)) d))"
  by (simp add: exp_entry_def)

lemma in_priv_excluded:
  assumes "priv = (case map_of d ''_private'' of Some p \<Rightarrow> p | None \<Rightarrow> PList [])"
    and "case map_of d ''_private'' of None \<Rightarrow> True | Some (PList ex) \<Rightarrow> True | Some _ \<Rightarrow> False"
  shows "\<exists>b. in_priv k priv = Inr b \<and> (excluded d k \<longleftrightarrow> b \<or> is_private k)"
  using assms by (auto simp: excluded_def split: option.splits pyval.splits)

lemma get_data_loop_regular:
  assumes dist: "distinct (map fst d)"
    and ents: "\<forall>kv\<in>set d. CHR ''.'' \<notin> set (fst kv) \<and>
        check_data n (snd kv) = Some (Inr (snd kv, export_spec (snd kv)))"
    and priv: "priv = (case map_of d ''_private'' of Some p \<Rightarrow> p | None \<Rightarrow> PList [])"
    and pl: "case map_of d ''_private'' of None \<Rightarrow> True | Some (PList ex) \<Rightarrow> True | Some _ \<Rightarrow> False"
  shows "d = pre @ rest \<Longrightarrow>
    get_data_loop n priv (map fst rest) d (map exp_entry (filter (\<lambda>kv. \<not> excluded d (fst kv)) pre))
      = Some (Inr (d, map exp_entry (filter (\<lambda>kv. \<not> excluded d (fst kv)) d)))"
proof (induction rest arbitrary: pre)
  case Nil
  then show ?case by simp
next
  case (Cons kv rest)
  obtain k v where kv: "kv = (k, v)" by (cases kv)
  let ?P = "\<lambda>kv. \<not> excluded d (fst kv)"
  from Cons.prems kv have d: "d = (pre @ [(k, v)]) @ rest" by simp
  note IH = Cons.IH[OF d]
  from in_priv_excluded[OF priv pl, of k]
  obtain b where b: "in_priv k priv = Inr b" "excluded d k \<longleftrightarrow> b \<or> is_private k" by blast
  show ?case
  proof (cases "excluded d k")
    case True
    then have "filter ?P (pre @ [(k, v)]) = filter ?P pre" by simp
    with IH True b show ?thesis unfolding kv by (cases b) auto
  next
    case False
    from dist Cons.prems kv have mem: "(k, v) \<in> set d" by simp
    with dist have look: "map_of d k = Some v" by simp
    from ents mem have nodot: "CHR ''.'' \<notin> set k"
      and cd: "check_data n v = Some (Inr (v, export_spec v))" by auto
    have gi: "Yaco_getitem d k = Inr (d, v)" using nodot look by (simp add: Yaco_getattr_def)
    have pb: "put_back d k v = d" using nodot look by (simp add: update_triv)
    from dist Cons.prems kv have "k \<notin> fst ` set pre" by auto
    then have "k \<notin> fst ` set (map exp_entry (filter ?P pre))"
      by (force simp: exp_entry_def)
    then have "map_of (map exp_entry (filter ?P pre)) k = None"
      by (simp add: map_of_eq_None_iff)
    from AList_update_absent[OF this]
    have up: "AList.update k (export_spec v) (map exp_entry (filter ?P pre))
        = map exp_entry (filter ?P (pre @ [(k, v)]))"
      using False by (simp add: exp_entry_def)
    from False b have nb: "b = False" "\<not> is_private k" by auto
    show ?thesis unfolding kv
      using IH b nb gi cd pb up by simp
  qed
qed

lemma check_data_regular:
  "regular v \<Longrightarrow> fuel_for v \<le> n \<Longrightarrow> check_data n v = Some (Inr (v, export_spec v))"
proof (induction v arbitrary: n)
  case (Yaco d)
  from Yaco.prems(2) obtain m where n: "n = Suc (Suc m)"
    and m: "sum_list (map (\<lambda>kv. fuel_for (snd kv)) d) \<le> m"
    by (cases n; cases "n - 1") auto
  have ents: "\<forall>kv\<in>set d. CHR ''.'' \<notin> set (fst kv) \<and>
        check_data m (snd kv) = Some (Inr (snd kv, export_spec (snd kv)))"
  proof
    fix kv assume kv: "kv \<in> set d"
    then have "fuel_for (snd kv) \<le> sum_list (map (\<lambda>kv. fuel_for (snd kv)) d)"
      by (simp add: member_le_sum_list)
    with m have le: "fuel_for (snd kv) \<le> m" by simp
    from kv Yaco.prems(1) have r: "regular (snd kv)" "CHR ''.'' \<notin> set (fst kv)" by auto
    have "snd kv \<in> Basic_BNFs.snds kv" by (cases kv) simp
    from Yaco.IH[OF kv this r(1) le] r(2)
    show "CHR ''.'' \<notin> set (fst kv) \<and>
        check_data m (snd kv) = Some (Inr (snd kv, export_spec (snd kv)))" by simp
  qed
  from Yaco.prems(1) have dist: "distinct (map fst d)"
    and pl: "case map_of d ''_private'' of None \<Rightarrow> True | Some (PList ex) \<Rightarrow> True | Some _ \<Rightarrow> False"
    by auto
  from get_data_loop_regular[OF dist ents refl pl, of "[]" d]
  have "Yaco_get_data (Suc m) d
      = Some (Inr (d, map exp_entry (filter (\<lambda>kv. \<not> excluded d (fst kv)) d)))" by simp
  then show ?case unfolding n by (simp add: exp_entry_def)
next
  case (PList xs)
  from PList.prems(2) obtain m where n: "n = Suc (Suc m)"
    and m: "sum_list (map fuel_for xs) \<le> m"
    by (cases n; cases "n - 1") auto
  have "\<forall>x\<in>set xs. check_data (Suc m) x = Some (Inr (x, export_spec x))"
  proof
    fix x assume x: "x \<in> set xs"
    then have "fuel_for x \<le> sum_list (map fuel_for xs)" by (simp add: member_le_sum_list)
    with m have "fuel_for x \<le> Suc m" by simp
    from PList.IH[OF x _ this] PList.prems(1) x
    show "check_data (Suc m) x = Some (Inr (x, export_spec x))" by simp
  qed
  then have "check_list (Suc m) xs = Some (Inr (xs, map export_spec xs))"
    by (induction xs) auto
  then show ?case unfolding n by simp
qed (auto elim: lessE simp: Suc_le_eq)

lemma nodes_only_getattr:
  assumes ok: "nodes_only (Yaco self)" and ga: "Yaco_getattr self k = (self', v)"
  shows "nodes_only (Yaco self') \<and> nodes_only v"
proof (cases "map_of self k")
  case None
  with ga have e: "self' = AList.update k (Yaco []) self" "v = Yaco []"
    by (auto simp: Yaco_getattr_def)
  from ok have "\<forall>kv\<in>set self. nodes_only (snd kv)" by simp
  from nodes_only_AList_update[OF this, of "Yaco []" k] e show ?thesis by simp
next
  case (Some x)
  with ga have e: "self' = self" "v = x" by (auto simp: Yaco_getattr_def)
  from ok have "\<forall>kv\<in>set self. nodes_only (snd kv)" by simp
  from nodes_only_map_of[OF this Some] e ok show ?thesis by simp
qed

lemma nodes_only_getitem:
  "nodes_only (Yaco self) \<Longrightarrow> Yaco_getitem self key = Inr (self', v) \<Longrightarrow>
   nodes_only (Yaco self') \<and> nodes_only v"
proof (induction self key arbitrary: self' v rule: Yaco_getitem.induct)
  case (1 self key)
  show ?case
  proof (cases "CHR ''.'' \<in> set key")
    case False
    with 1(3) have "Yaco_getattr self key = (self', v)" by simp
    from nodes_only_getattr[OF 1(2) this] show ?thesis .
  next
    case True
    obtain k1 k2 where sp: "split_dot key = (k1, k2)" by (cases "split_dot key")
    obtain self1 c where ga: "Yaco_getattr self k1 = (self1, c)" by (cases "Yaco_getattr self k1")
    from nodes_only_getattr[OF 1(2) ga] have n1: "nodes_only (Yaco self1)" "nodes_only c" by auto
    have unf: "Yaco_getitem self key =
       (case c of
          Yaco sub \<Rightarrow>
            (case Yaco_getitem sub k2 of
               Inl e \<Rightarrow> Inl e
             | Inr (sub', v) \<Rightarrow> Inr (AList.update k1 (Yaco sub') self1, v))
        | PDict d \<Rightarrow> (case map_of d k2 of None \<Rightarrow> Inl KeyError | Some v \<Rightarrow> Inr (self1, v))
        | _ \<Rightarrow> Inl TypeError)"
      by (simp only: Yaco_getitem_dot[OF True] sp ga prod.case)
    from n1(2) 1(3)[unfolded unf] obtain sub where c: "c = Yaco sub"
      by (cases c) simp_all
    from 1(3)[unfolded unf c] have
      run: "(case Yaco_getitem sub k2 of
               Inl e \<Rightarrow> Inl e
             | Inr (sub', v) \<Rightarrow> Inr (AList.update k1 (Yaco sub') self1, v)) = Inr (self', v)"
      by simp
    then obtain sub' where
      r: "Yaco_getitem sub k2 = Inr (sub', v)" "self' = AList.update k1 (Yaco sub') self1"
      by (cases "Yaco_getitem sub k2") auto
    from n1(2) c have "nodes_only (Yaco sub)" by simp
    from 1(1)[OF _ sp[symmetric] ga[symmetric] c this r(1)] True
    have s: "nodes_only (Yaco sub')" "nodes_only v" by auto
    from n1(1) have "\<forall>kv\<in>set self1. nodes_only (snd kv)" by simp
    from nodes_only_AList_update[OF this s(1), of k1] r(2) s(2)
    show ?thesis by simp
  qed
qed

lemma nodes_only_put_back:
  "nodes_only (Yaco self) \<Longrightarrow> nodes_only v \<Longrightarrow> nodes_only (Yaco (put_back self key v))"
proof (induction self key v rule: put_back.induct)
  case (1 self key v)
  from 1(2) have ok: "\<forall>kv\<in>set self. nodes_only (snd kv)" by simp
  show ?case
  proof (cases "CHR ''.'' \<in> set key")
    case False
    with nodes_only_AList_update[OF ok 1(3), of key] show ?thesis by simp
  next
    case True
    obtain k1 k2 where sp: "split_dot key = (k1, k2)" by (cases "split_dot key")
    have pb: "put_back self key v =
       (case map_of self k1 of
          Some (Yaco sub) \<Rightarrow> AList.update k1 (Yaco (put_back sub k2 v)) self
        | Some (PDict d) \<Rightarrow> AList.update k1 (PDict (AList.update k2 v d)) self
        | _ \<Rightarrow> self)"
      using True sp by simp
    show ?thesis
    proof (cases "\<exists>sub. map_of self k1 = Some (Yaco sub)")
      case True
      then obtain sub where Some: "map_of self k1 = Some (Yaco sub)" by blast
      from nodes_only_map_of[OF ok Some] have "nodes_only (Yaco sub)" .
      from 1(1)[OF _ sp[symmetric] Some refl this 1(3)] \<open>CHR ''.'' \<in> set key\<close>
      have "nodes_only (Yaco (put_back sub k2 v))" by simp
      from nodes_only_AList_update[OF ok this, of k1]
      show ?thesis unfolding pb Some by simp
    next
      case False
      have "\<not> (\<exists>d. map_of self k1 = Some (PDict d))"
      proof
        assume "\<exists>d. map_of self k1 = Some (PDict d)"
        then obtain d where "map_of self k1 = Some (PDict d)" by blast
        from nodes_only_map_of[OF ok this] show False by simp
      qed
      with False have "put_back self key v = self"
        unfolding pb by (cases "map_of self k1") (auto split: pyval.splits)
      with 1(2) show ?thesis by simp
    qed
  qed
qed


lemma set_AList_update_subset: "set (AList.update k v al) \<subseteq> insert (k, v) (set al)"
  by (induction al) auto

lemma exported_AList_update:
  assumes "exported (PDict data)" "exported d" "\<not> is_private k"
  shows "exported (PDict (AList.update k d data))"
proof -
  have "\<not> is_private (fst kv) \<and> exported (snd kv)" if "kv \<in> set (AList.update k d data)" for kv
  proof -
    from that set_AList_update_subset[of k d data] have "kv = (k, d) \<or> kv \<in> set data" by blast
    then show ?thesis using assms by auto
  qed
  then show ?thesis by simp
qed

lemma get_data_loop_raise:
  "in_priv k priv = Inl e \<Longrightarrow> get_data_loop n priv (k # ks) cur data = Some (Inl e)"
  by simp

lemma get_data_loop_skip:
  "in_priv k priv = Inr b \<Longrightarrow> b \<or> is_private k \<Longrightarrow>
   get_data_loop n priv (k # ks) cur data = get_data_loop n priv ks cur data"
  by (cases b) simp_all

lemma get_data_loop_item:
  "in_priv k priv = Inr False \<Longrightarrow> \<not> is_private k \<Longrightarrow>
   get_data_loop n priv (k # ks) cur data =
     (case Yaco_getitem cur k of
        Inl e \<Rightarrow> Some (Inl e)
      | Inr (cur1, v) \<Rightarrow>
          (case check_data n v of
             None \<Rightarrow> None
           | Some (Inl e) \<Rightarrow> Some (Inl e)
           | Some (Inr (v', d)) \<Rightarrow>
               get_data_loop n priv ks (put_back cur1 k v') (AList.update k d data)))"
  by simp

lemma get_data_loop_item_result:
  assumes "in_priv k priv = Inr False" "\<not> is_private k"
    and "get_data_loop n priv (k # ks) cur data = Some (Inr (cur', d))"
  obtains cur1 v v' dd where "Yaco_getitem cur k = Inr (cur1, v)"
    "check_data n v = Some (Inr (v', dd))"
    "get_data_loop n priv ks (put_back cur1 k v') (AList.update k dd data) = Some (Inr (cur', d))"
proof -
  note run = assms(3)[unfolded get_data_loop_item[OF assms(1,2)]]
  from run obtain cur1 v where gi: "Yaco_getitem cur k = Inr (cur1, v)"
    by (cases "Yaco_getitem cur k") auto
  note run2 = run[unfolded gi sum.case prod.case]
  from run2 obtain r where cr: "check_data n v = Some r" by (cases "check_data n v") auto
  note run3 = run2[unfolded cr option.case]
  from run3 obtain v' dd where r: "r = Inr (v', dd)" by (cases r) auto
  note run4 = run3[unfolded r sum.case prod.case]
  from gi cr[unfolded r] run4 that show thesis by blast
qed

lemma check_data_Yaco_result:
  assumes "check_data (Suc m) (Yaco sub) = Some (Inr (v', d))"
  obtains sub' dd where "Yaco_get_data m sub = Some (Inr (sub', dd))" "v' = Yaco sub'" "d = PDict dd"
proof -
  have unf: "check_data (Suc m) (Yaco sub) =
     (case Yaco_get_data m sub of
        None \<Rightarrow> None
      | Some (Inl e) \<Rightarrow> Some (Inl e)
      | Some (Inr (sub', d)) \<Rightarrow> Some (Inr (Yaco sub', PDict d)))" by simp
  note run = assms[unfolded unf]
  from run obtain r where cr: "Yaco_get_data m sub = Some r"
    by (cases "Yaco_get_data m sub") auto
  note run2 = run[unfolded cr option.case]
  from run2 obtain sub' dd where r: "r = Inr (sub', dd)" by (cases r) auto
  from run2[unfolded r sum.case prod.case] cr[unfolded r] that show thesis by simp
qed

lemma check_data_PList_result:
  assumes "check_data (Suc m) (PList xs) = Some (Inr (v', d))"
  obtains xs' ds where "check_list m xs = Some (Inr (xs', ds))" "v' = PList xs'" "d = PList ds"
proof -
  have unf: "check_data (Suc m) (PList xs) =
     (case check_list m xs of
        None \<Rightarrow> None
      | Some (Inl e) \<Rightarrow> Some (Inl e)
      | Some (Inr (xs', ds)) \<Rightarrow> Some (Inr (PList xs', PList ds)))" by simp
  note run = assms[unfolded unf]
  from run obtain r where cr: "check_list m xs = Some r"
    by (cases "check_list m xs") auto
  note run2 = run[unfolded cr option.case]
  from run2 obtain xs' ds where r: "r = Inr (xs', ds)" by (cases r) auto
  from run2[unfolded r sum.case prod.case] cr[unfolded r] that show thesis by simp
qed

lemma check_data_scalar_result:
  "is_scalar v \<Longrightarrow> check_data (Suc m) v = Some (Inr (v, v))"
  by (cases v) simp_all

lemma check_data_PDict_result:
  "check_data (Suc m) (PDict d) = Some (Inr (PDict d, PDict d))"
  by simp

lemma check_list_Cons_result:
  assumes "check_list n (x # xs) = Some (Inr (xs', ds))"
  obtains x' d ys es where "check_data n x = Some (Inr (x', d))"
    "check_list n xs = Some (Inr (ys, es))" "xs' = x' # ys" "ds = d # es"
proof -
  note run = assms[unfolded check_list.simps]
  from run obtain r where cr: "check_data n x = Some r" by (cases "check_data n x") auto
  note run2 = run[unfolded cr option.case]
  from run2 obtain x' d where r: "r = Inr (x', d)" by (cases r) auto
  note run3 = run2[unfolded r sum.case prod.case]
  from run3 obtain r2 where cr2: "check_list n xs = Some r2" by (cases "check_list n xs") auto
  note run4 = run3[unfolded cr2 option.case]
  from run4 obtain ys es where r2: "r2 = Inr (ys, es)" by (cases r2) auto
  from run4[unfolded r2 sum.case prod.case] cr[unfolded r] cr2[unfolded r2] that
  show thesis by simp
qed

lemma get_data_sound:
  "\<forall>self' d. nodes_only (Yaco self) \<longrightarrow> Yaco_get_data n self = Some (Inr (self', d)) \<longrightarrow>
     exported (PDict d) \<and> nodes_only (Yaco self') \<and>
     fst ` set d \<subseteq> {k. \<not> is_private k \<and>
        in_priv k (case map_of self ''_private'' of None \<Rightarrow> PList [] | Some p \<Rightarrow> p) = Inr False}"
  "\<forall>cur' d. nodes_only (Yaco cur) \<longrightarrow> exported (PDict data) \<longrightarrow>
     get_data_loop n priv ks cur data = Some (Inr (cur', d)) \<longrightarrow>
     exported (PDict d) \<and> nodes_only (Yaco cur') \<and>
     fst ` set d \<subseteq> fst ` set data \<union> {k. \<not> is_private k \<and> in_priv k priv = Inr False}"
  "\<forall>v' d. nodes_only v \<longrightarrow> check_data n v = Some (Inr (v', d)) \<longrightarrow>
     exported d \<and> nodes_only v'"
  "\<forall>xs' ds. (\<forall>x\<in>set xs. nodes_only x) \<longrightarrow> check_list n xs = Some (Inr (xs', ds)) \<longrightarrow>
     (\<forall>d\<in>set ds. exported d) \<and> (\<forall>x\<in>set xs'. nodes_only x)"
proof (induction n self and n priv ks cur data and n v and n xs
    rule: Yaco_get_data_get_data_loop_check_data_check_list.induct)
  case (1 self)
  show ?case by simp
next
  case (2 m self)
  have "exported (PDict [])" by simp
  with 2 show ?case by (simp del: exported.simps)
next
  case (3 n priv cur data)
  show ?case by auto
next
  case (4 n priv k ks cur data)
  show ?case
  proof (intro allI impI)
    fix cur' d
    assume nc: "nodes_only (Yaco cur)" and ed: "exported (PDict data)"
      and run: "get_data_loop n priv (k # ks) cur data = Some (Inr (cur', d))"
    let ?goal = "exported (PDict d) \<and> nodes_only (Yaco cur') \<and>
       fst ` set d \<subseteq> fst ` set data \<union> {k. \<not> is_private k \<and> in_priv k priv = Inr False}"
    obtain b where b: "in_priv k priv = Inr b"
    proof (cases "in_priv k priv")
      case (Inl e)
      from run[unfolded get_data_loop_raise[OF Inl]] show thesis by simp
    next
      case (Inr b)
      then show thesis by (rule that)
    qed
    show ?goal
    proof (cases "b \<or> is_private k")
      case True
      note run' = run[unfolded get_data_loop_skip[OF b True]]
      have IH: "\<forall>cur' d. nodes_only (Yaco cur) \<longrightarrow> exported (PDict data) \<longrightarrow>
         get_data_loop n priv ks cur data = Some (Inr (cur', d)) \<longrightarrow>
         exported (PDict d) \<and> nodes_only (Yaco cur') \<and>
         fst ` set d \<subseteq> fst ` set data \<union> {k. \<not> is_private k \<and> in_priv k priv = Inr False}"
      proof (cases b)
        case True
        then have "b = True" by simp
        from 4(1)[OF b this] show ?thesis .
      next
        case False
        with \<open>b \<or> is_private k\<close> have "is_private k" by simp
        from False have "b = False" by simp
        from 4(2)[OF b this \<open>is_private k\<close>] show ?thesis .
      qed
      from IH nc ed run' show ?thesis by blast
    next
      case False
      then have nb: "b = False" and np: "\<not> is_private k" by auto
      note b' = b[unfolded nb]
      from get_data_loop_item_result[OF b' np run]
      obtain cur1 v v' dd where gi: "Yaco_getitem cur k = Inr (cur1, v)"
        and cd: "check_data n v = Some (Inr (v', dd))"
        and rest: "get_data_loop n priv ks (put_back cur1 k v') (AList.update k dd data)
          = Some (Inr (cur', d))" by blast
      from nodes_only_getitem[OF nc gi] have n1: "nodes_only (Yaco cur1)" "nodes_only v" by auto
      from 4(3)[OF b nb np gi refl] n1(2) cd have e1: "exported dd" "nodes_only v'" by blast+
      from nodes_only_put_back[OF n1(1) e1(2)] have n2: "nodes_only (Yaco (put_back cur1 k v'))" .
      from exported_AList_update[OF ed e1(1) np]
      have e2: "exported (PDict (AList.update k dd data))" .
      from 4(4)[OF b nb np gi refl cd refl refl] n2 e2 rest
      have r: "exported (PDict d)" "nodes_only (Yaco cur')"
        "fst ` set d \<subseteq> fst ` set (AList.update k dd data) \<union>
           {k. \<not> is_private k \<and> in_priv k priv = Inr False}" by blast+
      from r(3) np b'
      have "fst ` set d \<subseteq> fst ` set data \<union> {k. \<not> is_private k \<and> in_priv k priv = Inr False}"
        unfolding dom_update by auto
      with r(1,2) show ?thesis by blast
    qed
  qed
next
  case (5 v)
  show ?case by simp
next
  case (6 m v)
  show ?case
  proof (intro allI impI)
    fix v' d
    assume nv: "nodes_only v" and run: "check_data (Suc m) v = Some (Inr (v', d))"
    show "exported d \<and> nodes_only v'"
    proof (cases v)
      case (Yaco sub)
      from check_data_Yaco_result[OF run[unfolded Yaco]]
      obtain sub' dd where g: "Yaco_get_data m sub = Some (Inr (sub', dd))"
        and eq: "v' = Yaco sub'" "d = PDict dd" by blast
      from 6(2)[OF Yaco] nv[unfolded Yaco] g
      have "exported (PDict dd) \<and> nodes_only (Yaco sub')" by blast
      with eq show ?thesis by blast
    next
      case (PList xs)
      from check_data_PList_result[OF run[unfolded PList]]
      obtain xs' ds where g: "check_list m xs = Some (Inr (xs', ds))"
        and eq: "v' = PList xs'" "d = PList ds" by blast
      from nv[unfolded PList] have "\<forall>x\<in>set xs. nodes_only x" by simp
      with 6(1)[OF PList] g have "(\<forall>d\<in>set ds. exported d) \<and> (\<forall>x\<in>set xs'. nodes_only x)"
        by blast
      with eq show ?thesis by simp
    next
      case (PDict dd)
      with nv show ?thesis by simp
    qed (use run in auto)
  qed
next
  case (7 n)
  show ?case by simp
next
  case (8 n x xs)
  show ?case
  proof (intro allI impI)
    fix xs' ds
    assume ok: "\<forall>x\<in>set (x # xs). nodes_only x"
      and run: "check_list n (x # xs) = Some (Inr (xs', ds))"
    from check_list_Cons_result[OF run]
    obtain x' d ys es where cd: "check_data n x = Some (Inr (x', d))"
      and cl: "check_list n xs = Some (Inr (ys, es))"
      and eq: "xs' = x' # ys" "ds = d # es" by blast
    from ok have okx: "nodes_only x" and okxs: "\<forall>x\<in>set xs. nodes_only x" by simp_all
    from 8(1) okx cd have a: "exported d" "nodes_only x'" by blast+
    from 8(2)[OF cd refl refl] okxs cl
    have "(\<forall>d\<in>set es. exported d) \<and> (\<forall>x\<in>set ys. nodes_only x)" by blast
    with a eq show "(\<forall>d\<in>set ds. exported d) \<and> (\<forall>x\<in>set xs'. nodes_only x)" by simp
  qed
qed


lemma regular_nodes_only: "regular v \<Longrightarrow> nodes_only v"
  by (induction v) auto

text \<open>
  Claim C5.  Export strips private data recursively and leaves no Node.  For a Node
  \<open>self\<close> whose stored mappings are Nodes: whenever \<open>get_data\<close> returns, the
  mapping it returns is built of scalars, lists and plain dicts only, no dict in it, at
  any depth and also inside lists, has a key beginning with an underscore, and no key
  named in the list stored under \<open>_private\<close> in \<open>self\<close> is a key of it.  For a
  Node of the data model (unique keys without dots, an exclusion list that is a list when
  present, at every depth) \<open>get_data\<close> returns, leaves the Node as it is, and returns
  exactly the specified export, in which every nested Node has lost its own private and
  excluded keys.
\<close>

theorem Yaco_get_data_strips_private:
  "(nodes_only (Yaco self) \<and> Yaco_get_data n self = Some (Inr (self', d)) \<longrightarrow>
      exported (PDict d) \<and>
      (\<forall>k. is_private k \<longrightarrow> map_of d k = None) \<and>
      (\<forall>ex k. map_of self ''_private'' = Some (PList ex) \<and> PStr k \<in> set ex \<longrightarrow>
         map_of d k = None)) \<and>
   (regular (Yaco self) \<and> fuel_for (Yaco self) \<le> Suc n \<longrightarrow>
      (\<exists>dd. Yaco_get_data n self = Some (Inr (self, dd)) \<and>
         export_spec (Yaco self) = PDict dd \<and> exported (PDict dd)))"
proof (intro conjI impI)
  assume a: "nodes_only (Yaco self) \<and> Yaco_get_data n self = Some (Inr (self', d))"
  from get_data_sound(1)[of self n] a
  have s: "exported (PDict d)"
    "fst ` set d \<subseteq> {k. \<not> is_private k \<and>
        in_priv k (case map_of self ''_private'' of None \<Rightarrow> PList [] | Some p \<Rightarrow> p) = Inr False}"
    by blast+
  show "exported (PDict d)" by (rule s(1))
  show "\<forall>k. is_private k \<longrightarrow> map_of d k = None"
  proof (intro allI impI)
    fix k assume "is_private k"
    with s(2) have "k \<notin> fst ` set d" by blast
    then show "map_of d k = None" by (simp add: map_of_eq_None_iff)
  qed
  show "\<forall>ex k. map_of self ''_private'' = Some (PList ex) \<and> PStr k \<in> set ex \<longrightarrow>
         map_of d k = None"
  proof (intro allI impI)
    fix ex k assume e: "map_of self ''_private'' = Some (PList ex) \<and> PStr k \<in> set ex"
    then have "in_priv k (case map_of self ''_private'' of None \<Rightarrow> PList [] | Some p \<Rightarrow> p)
        = Inr True" by simp
    with s(2) have "k \<notin> fst ` set d" by auto
    then show "map_of d k = None" by (simp add: map_of_eq_None_iff)
  qed
next
  assume r: "regular (Yaco self) \<and> fuel_for (Yaco self) \<le> Suc n"
  then have cd: "check_data (Suc n) (Yaco self) = Some (Inr (Yaco self, export_spec (Yaco self)))"
    by (intro check_data_regular) blast+
  from check_data_Yaco_result[OF cd]
  obtain dd where g: "Yaco_get_data n self = Some (Inr (self, dd))"
    and e: "export_spec (Yaco self) = PDict dd" by blast
  from r have "nodes_only (Yaco self)" by (intro regular_nodes_only) blast
  with get_data_sound(1)[of self n] g have "exported (PDict dd)" by blast
  with g e show "\<exists>dd. Yaco_get_data n self = Some (Inr (self, dd)) \<and>
         export_spec (Yaco self) = PDict dd \<and> exported (PDict dd)" by blast
qed

theorem Yaco_get_data_strips_private_witness:
  "regular (Yaco [(''y'', Yaco [(''z'', PInt 2), (''w'', PInt 3),
                                 (''_private'', PList [PStr ''w''])]),
                  (''_x'', PInt 1)]) \<and>
   Yaco_get_data 9 [(''y'', Yaco [(''z'', PInt 2), (''w'', PInt 3),
                                   (''_private'', PList [PStr ''w''])]),
                    (''_x'', PInt 1)]
     = Some (Inr ([(''y'', Yaco [(''z'', PInt 2), (''w'', PInt 3),
                                  (''_private'', PList [PStr ''w''])]),
                   (''_x'', PInt 1)],
                  [(''y'', PDict [(''z'', PInt 2)])])) \<and>
   exported (PDict [(''y'', PDict [(''z'', PInt 2)])])"
proof -
  let ?n = "[(''y'', Yaco [(''z'', PInt 2), (''w'', PInt 3),
                            (''_private'', PList [PStr ''w''])]),
             (''_x'', PInt 1)]"
  have r: "regular (Yaco ?n)" by simp
  have f: "fuel_for (Yaco ?n) \<le> Suc 9" by simp
  have e: "export_spec (Yaco ?n) = PDict [(''y'', PDict [(''z'', PInt 2)])]"
    by (simp add: excluded_def is_private_def)
  from Yaco_get_data_strips_private[of ?n 9, THEN conjunct2, THEN mp, OF conjI[OF r f]]
  obtain dd where g: "Yaco_get_data 9 ?n = Some (Inr (?n, dd))"
    and ed: "export_spec (Yaco ?n) = PDict dd" by blast
  from ed e have dd: "dd = [(''y'', PDict [(''z'', PInt 2)])]" by simp
  from r have "nodes_only (Yaco ?n)" by (rule regular_nodes_only)
  with Yaco_get_data_strips_private[of ?n 9 ?n dd, THEN conjunct1] g
  have "exported (PDict dd)" by blast
  with r g dd show ?thesis by blast
qed


section \<open>Properties of the layered configuration\<close>

lemma merge_dirty:
  "PolyYaco_dirty s \<Longrightarrow>
   PolyYaco_merge s =
     (s\<lparr>PolyYaco_merged := Yaco (merge_layers (PolyYaco_yacs s)), PolyYaco_dirty := False\<rparr>,
      Yaco (merge_layers (PolyYaco_yacs s)))"
  by (simp add: PolyYaco_merge_def Let_def)

lemma merge_clean: "\<not> PolyYaco_dirty s \<Longrightarrow> PolyYaco_merge s = (s, PolyYaco_merged s)"
  by (simp add: PolyYaco_merge_def)

lemma merge_clears: "\<not> PolyYaco_dirty (fst (PolyYaco_merge s))"
  by (simp add: PolyYaco_merge_def Let_def)

lemma merge_yacs: "PolyYaco_yacs (fst (PolyYaco_merge s)) = PolyYaco_yacs s"
  by (simp add: PolyYaco_merge_def Let_def)

lemma getattr_unfold:
  "\<not> is_instance_name k \<Longrightarrow>
   PolyYaco_getattr s k =
     (case snd (PolyYaco_merge s) of
        Yaco y \<Rightarrow> Inr ((fst (PolyYaco_merge s))\<lparr>PolyYaco_merged := Yaco (fst (Yaco_getattr y k))\<rparr>,
                     snd (Yaco_getattr y k))
      | _ \<Rightarrow> Inl AttributeError)"
  unfolding PolyYaco_getattr_def
  by (cases "PolyYaco_merge s"; cases "snd (PolyYaco_merge s)")
     (simp_all add: case_prod_beta)

lemma getattr_result:
  assumes "\<not> is_instance_name k" "PolyYaco_getattr s k = Inr (s1, v)"
  obtains y where "snd (PolyYaco_merge s) = Yaco y"
    "s1 = (fst (PolyYaco_merge s))\<lparr>PolyYaco_merged := Yaco (fst (Yaco_getattr y k))\<rparr>"
    "v = snd (Yaco_getattr y k)"
proof -
  note u = assms(2)[unfolded getattr_unfold[OF assms(1)]]
  from u obtain y where m: "snd (PolyYaco_merge s) = Yaco y"
    by (cases "snd (PolyYaco_merge s)") simp_all
  from u[unfolded m] have
    "s1 = (fst (PolyYaco_merge s))\<lparr>PolyYaco_merged := Yaco (fst (Yaco_getattr y k))\<rparr>"
    "v = snd (Yaco_getattr y k)" by simp_all
  with m that show thesis by blast
qed

lemma getattr_instance:
  "is_instance_name k \<Longrightarrow> PolyYaco_getattr s k = Inr (s1, v) \<Longrightarrow> s1 = s"
  by (cases "instance_read s k") (simp_all add: PolyYaco_getattr_def)

lemma getattr_clean:
  assumes "PolyYaco_getattr s k = Inr (s1, v)"
  shows "PolyYaco_dirty s1 = (PolyYaco_dirty s \<and> \<not> calls_merge (RGetattr k))"
    and "PolyYaco_yacs s1 = PolyYaco_yacs s"
proof -
  show "PolyYaco_dirty s1 = (PolyYaco_dirty s \<and> \<not> calls_merge (RGetattr k))"
  proof (cases "is_instance_name k")
    case True
    with getattr_instance[OF True assms] show ?thesis by simp
  next
    case False
    from getattr_result[OF False assms] obtain y where
      "s1 = (fst (PolyYaco_merge s))\<lparr>PolyYaco_merged := Yaco (fst (Yaco_getattr y k))\<rparr>" by blast
    with merge_clears[of s] False show ?thesis by simp
  qed
  show "PolyYaco_yacs s1 = PolyYaco_yacs s"
  proof (cases "is_instance_name k")
    case True
    with getattr_instance[OF True assms] show ?thesis by simp
  next
    case False
    from getattr_result[OF False assms] obtain y where
      "s1 = (fst (PolyYaco_merge s))\<lparr>PolyYaco_merged := Yaco (fst (Yaco_getattr y k))\<rparr>" by blast
    with merge_yacs[of s] show ?thesis by simp
  qed
qed

lemma getattr_error: "PolyYaco_getattr s k = Inl e \<Longrightarrow> e = AttributeError"
proof (cases "is_instance_name k")
  case True
  assume "PolyYaco_getattr s k = Inl e"
  with True show ?thesis
    by (cases "instance_read s k") (simp_all add: PolyYaco_getattr_def)
next
  case False
  assume a: "PolyYaco_getattr s k = Inl e"
  note u = a[unfolded getattr_unfold[OF False]]
  then show ?thesis by (cases "snd (PolyYaco_merge s)") simp_all
qed

lemma get_result:
  assumes "PolyYaco_get s k d = Inr (s1, v)"
  obtains rv where "PolyYaco_getattr s k = Inr (s1, rv)"
proof (cases "PolyYaco_getattr s k")
  case (Inl e)
  from getattr_error[OF Inl] have "e = AttributeError" .
  with Inl assms show ?thesis by (simp add: PolyYaco_get_def)
next
  case (Inr p)
  obtain s0 rv where p: "p = (s0, rv)" by (cases p)
  from assms Inr p have "s1 = s0"
    by (cases "rv = Yaco [] \<or> rv = PDict []") (simp_all add: PolyYaco_get_def)
  with Inr p that show ?thesis by simp
qed

lemma contains_result:
  assumes "PolyYaco_contains s k = Inr (s1, b)"
  shows "s1 = fst (PolyYaco_merge s)"
proof -
  obtain s0 m where pm: "PolyYaco_merge s = (s0, m)" by (cases "PolyYaco_merge s")
  from assms pm show ?thesis by (cases m) (simp_all add: PolyYaco_contains_def)
qed

lemma do_read_flag:
  assumes "do_read s r = Inr s1"
  shows "PolyYaco_dirty s1 = (PolyYaco_dirty s \<and> \<not> calls_merge r)"
    and "PolyYaco_yacs s1 = PolyYaco_yacs s"
proof -
  have "PolyYaco_dirty s1 = (PolyYaco_dirty s \<and> \<not> calls_merge r) \<and>
      PolyYaco_yacs s1 = PolyYaco_yacs s"
  proof (cases r)
    case RMerge
    with assms merge_clears[of s] merge_yacs[of s] show ?thesis by auto
  next
    case (RGetattr k)
    with assms obtain v where "PolyYaco_getattr s k = Inr (s1, v)"
      by (cases "PolyYaco_getattr s k") auto
    from getattr_clean[OF this] RGetattr show ?thesis by simp
  next
    case (RGet k d)
    with assms obtain v where "PolyYaco_get s k d = Inr (s1, v)"
      by (cases "PolyYaco_get s k d") auto
    from get_result[OF this] obtain rv where "PolyYaco_getattr s k = Inr (s1, rv)" by blast
    from getattr_clean[OF this] RGet show ?thesis by simp
  next
    case (RContains k)
    with assms obtain b where "PolyYaco_contains s k = Inr (s1, b)"
      by (cases "PolyYaco_contains s k") auto
    from contains_result[OF this] merge_clears[of s] merge_yacs[of s] RContains
    show ?thesis by simp
  qed
  then show "PolyYaco_dirty s1 = (PolyYaco_dirty s \<and> \<not> calls_merge r)"
    and "PolyYaco_yacs s1 = PolyYaco_yacs s" by simp_all
qed

lemma run_reads_Cons_result:
  assumes "run_reads s (r # rs) = Inr (s', c)"
  obtains s1 c1 where "do_read s r = Inr s1" "run_reads s1 rs = Inr (s', c1)"
    "c = c1 + (if calls_merge r \<and> PolyYaco_dirty s then 1 else 0)"
proof -
  note u = assms[unfolded run_reads.simps]
  from u obtain s1 where d: "do_read s r = Inr s1" by (cases "do_read s r") simp_all
  note u1 = u[unfolded d sum.case]
  from u1 obtain p where rr: "run_reads s1 rs = Inr p" by (cases "run_reads s1 rs") simp_all
  obtain s2 c1 where p: "p = (s2, c1)" by (cases p)
  note u2 = u1[unfolded rr p sum.case prod.case]
  from u2 have "s2 = s'" "c = c1 + (if calls_merge r \<and> PolyYaco_dirty s then 1 else 0)"
    by simp_all
  with d rr p that show thesis by blast
qed

lemma run_reads_count:
  "run_reads s rs = Inr (s', c) \<Longrightarrow>
   c = (if PolyYaco_dirty s \<and> (\<exists>r\<in>set rs. calls_merge r) then 1 else 0) \<and>
   PolyYaco_dirty s' = (PolyYaco_dirty s \<and> \<not> (\<exists>r\<in>set rs. calls_merge r)) \<and>
   PolyYaco_yacs s' = PolyYaco_yacs s"
proof (induction rs arbitrary: s c)
  case Nil
  then show ?case by simp
next
  case (Cons r rs)
  from run_reads_Cons_result[OF Cons.prems]
  obtain s1 c1 where d: "do_read s r = Inr s1" and rr: "run_reads s1 rs = Inr (s', c1)"
    and c: "c = c1 + (if calls_merge r \<and> PolyYaco_dirty s then 1 else 0)" by blast
  note IH = Cons.IH[OF rr]
  note f = do_read_flag[OF d]
  show ?case
  proof (cases "PolyYaco_dirty s")
    case False
    with f have "\<not> PolyYaco_dirty s1" by simp
    with IH have "c1 = 0" "\<not> PolyYaco_dirty s'" "PolyYaco_yacs s' = PolyYaco_yacs s1" by simp_all
    with c f(2) False show ?thesis by simp
  next
    case True
    show ?thesis
    proof (cases "calls_merge r")
      case cm: True
      with f have "\<not> PolyYaco_dirty s1" by simp
      with IH have "c1 = 0" "\<not> PolyYaco_dirty s'" "PolyYaco_yacs s' = PolyYaco_yacs s1"
        by simp_all
      with c f(2) True cm show ?thesis by simp
    next
      case cm: False
      with f True have d1: "PolyYaco_dirty s1" by simp
      from IH d1 have
        "c1 = (if \<exists>r\<in>set rs. calls_merge r then 1 else 0)"
        "PolyYaco_dirty s' = (\<not> (\<exists>r\<in>set rs. calls_merge r))"
        "PolyYaco_yacs s' = PolyYaco_yacs s1" by simp_all
      with c f(2) True cm show ?thesis by simp
    qed
  qed
qed

lemma merge_layers_snoc:
  "merge_layers (pre @ [l]) = Yaco_update (merge_layers pre) (snd l)"
  by (simp add: merge_layers_def)

lemma getTop_dirty: "PolyYaco_getTop (s\<lparr>PolyYaco_dirty := b\<rparr>) = PolyYaco_getTop s"
  by (simp add: PolyYaco_getTop_def)

lemma getTop_Some:
  assumes "PolyYaco_getTop s = Inr (Some (cfn, c, cyc))"
  shows "PolyYaco_yacs s \<noteq> []" "last (PolyYaco_yacs s) = (c, cyc)"
    "PolyYaco_filenames s \<noteq> []" "last (PolyYaco_filenames s) = cfn"
proof -
  from assms have a: "PolyYaco_yacs s \<noteq> []"
    by (cases "PolyYaco_yacs s = []") (simp_all add: PolyYaco_getTop_def)
  from assms a have b: "PolyYaco_filenames s \<noteq> []"
    by (cases "PolyYaco_filenames s = []") (simp_all add: PolyYaco_getTop_def)
  from assms a b show "PolyYaco_yacs s \<noteq> []" "last (PolyYaco_yacs s) = (c, cyc)"
    "PolyYaco_filenames s \<noteq> []" "last (PolyYaco_filenames s) = cfn"
    by (simp_all add: PolyYaco_getTop_def)
qed

lemma setattr_result:
  assumes "\<not> is_instance_name key" "PolyYaco_setattr s key value = Inr s1"
  obtains cfn c cyc where "PolyYaco_getTop s = Inr (Some (cfn, c, cyc))"
    "s1 = s\<lparr>PolyYaco_dirty := True,
             PolyYaco_yacs := butlast (PolyYaco_yacs s) @ [(c, Yaco_setattr cyc key value)]\<rparr>"
proof -
  have u: "PolyYaco_setattr s key value =
     (case PolyYaco_getTop s of
        Inl e \<Rightarrow> Inl e
      | Inr None \<Rightarrow> Inl AttributeError
      | Inr (Some (cfn, c, cyc)) \<Rightarrow>
          Inr (s\<lparr>PolyYaco_dirty := True,
                  PolyYaco_yacs :=
                    butlast (PolyYaco_yacs s) @ [(c, Yaco_setattr cyc key value)]\<rparr>))"
    using assms(1) by (simp add: PolyYaco_setattr_def getTop_dirty)
  note a = assms(2)[unfolded u]
  from a obtain t where t: "PolyYaco_getTop s = Inr t" by (cases "PolyYaco_getTop s") simp_all
  note a1 = a[unfolded t sum.case]
  from a1 obtain p where p: "t = Some p" by (cases t) simp_all
  obtain cfn c cyc where q: "p = (cfn, c, cyc)" by (cases p)
  from a1[unfolded p q option.case prod.case] t p q that show thesis by simp
qed

lemma map_of_Yaco_setattr_scalar:
  "is_scalar value \<Longrightarrow> map_of (Yaco_setattr cyc key value) key = Some value"
  by (cases "value") (simp_all add: update_conv')

lemma keys_Yaco_setattr:
  "fst ` set (Yaco_setattr cyc key value) = insert key (fst ` set cyc)"
  by (cases "value") (auto simp: dom_update split: option.splits pyval.splits)

lemma distinct_Yaco_setattr:
  "distinct (map fst cyc) \<Longrightarrow> distinct (map fst (Yaco_setattr cyc key value))"
  by (cases "value") (auto simp: distinct_update split: option.splits pyval.splits)

lemma update_value_scalar: "is_scalar v \<Longrightarrow> update_value old v = v"
  by (cases v) (simp_all add: update_value_def)

lemma write_then_merge:
  assumes ni: "\<not> is_instance_name key" and w: "PolyYaco_setattr s key value = Inr s1"
    and d: "distinct (map fst (snd (last (PolyYaco_yacs s))))"
  shows "PolyYaco_dirty s1"
    and "\<exists>m w. snd (PolyYaco_merge s1) = Yaco m \<and>
          map_of (snd (last (PolyYaco_yacs s1))) key = Some w \<and>
          map_of m key =
            Some (update_value (map_of (merge_layers (butlast (PolyYaco_yacs s1))) key) w)"
    and "is_scalar value \<longrightarrow> (\<exists>m. snd (PolyYaco_merge s1) = Yaco m \<and> map_of m key = Some value)"
proof -
  from setattr_result[OF ni w] obtain cfn c cyc where
    t: "PolyYaco_getTop s = Inr (Some (cfn, c, cyc))"
    and s1: "s1 = s\<lparr>PolyYaco_dirty := True,
             PolyYaco_yacs := butlast (PolyYaco_yacs s) @ [(c, Yaco_setattr cyc key value)]\<rparr>"
    by blast
  from s1 show dirty: "PolyYaco_dirty s1" by simp
  from getTop_Some[OF t] have l: "last (PolyYaco_yacs s) = (c, cyc)" by simp
  let ?top = "Yaco_setattr cyc key value"
  let ?low = "merge_layers (butlast (PolyYaco_yacs s))"
  from s1 have y1: "PolyYaco_yacs s1 = butlast (PolyYaco_yacs s) @ [(c, ?top)]" by simp
  have m: "snd (PolyYaco_merge s1) = Yaco (Yaco_update ?low ?top)"
    using merge_dirty[OF dirty] y1 by (simp add: merge_layers_snoc)
  from d l have dt: "distinct (map fst ?top)" by (simp add: distinct_Yaco_setattr)
  from keys_Yaco_setattr[of cyc key "value"] have "key \<in> fst ` set ?top" by simp
  then obtain w where wk: "map_of ?top key = Some w"
    by (cases "map_of ?top key") (auto simp: map_of_eq_None_iff)
  from map_of_Yaco_update[OF dt, of ?low key] wk
  have r: "map_of (Yaco_update ?low ?top) key = Some (update_value (map_of ?low key) w)" by simp
  from m wk r y1
  show "\<exists>m w. snd (PolyYaco_merge s1) = Yaco m \<and>
          map_of (snd (last (PolyYaco_yacs s1))) key = Some w \<and>
          map_of m key =
            Some (update_value (map_of (merge_layers (butlast (PolyYaco_yacs s1))) key) w)"
    by simp
  show "is_scalar value \<longrightarrow> (\<exists>m. snd (PolyYaco_merge s1) = Yaco m \<and> map_of m key = Some value)"
  proof
    assume sc: "is_scalar value"
    from map_of_Yaco_setattr_scalar[OF sc, of cyc key] wk have "w = value" by simp
    with r update_value_scalar[OF sc] m
    show "\<exists>m. snd (PolyYaco_merge s1) = Yaco m \<and> map_of m key = Some value" by simp
  qed
qed

end
